theory Spec2Isabelle
  imports Main "HOL-Library.Multiset"
begin

section \<open>The textus ElasticSearch data store (src/js/datastore/dataStore-elastic.js)\<close>

text \<open>
  JavaScript numbers that the code uses as character offsets, lengths and sequence numbers
  are modelled as \<open>int\<close>; JavaScript strings as \<open>string\<close>, one \<open>char\<close> per code unit;
  \<open>null\<close> as \<open>None\<close>.
\<close>

subsection \<open>String primitives of the language\<close>

text \<open>
  \<open>String.prototype.lastIndexOf\<close> for a one-character search string: the position is clamped
  to \<open>[0, length - 1]\<close>, the string is scanned backwards from there, and -1 reports that the
  character was not found.
\<close>

fun lastIndexFrom :: "string \<Rightarrow> char \<Rightarrow> nat \<Rightarrow> int" where
  "lastIndexFrom s c 0 = (if s \<noteq> [] \<and> s ! 0 = c then 0 else -1)"
| "lastIndexFrom s c (Suc k) =
     (if Suc k < length s \<and> s ! Suc k = c then int (Suc k) else lastIndexFrom s c k)"

definition lastIndexOf :: "string \<Rightarrow> char \<Rightarrow> int \<Rightarrow> int" where
  "lastIndexOf s c position =
     (let start = min (max position 0) (int (length s) - 1)
      in if start < 0 then -1 else lastIndexFrom s c (nat start))"

text \<open>
  \<open>String.prototype.substr(start, length)\<close>: a negative start counts from the end of the
  string, the length is clamped to what is left.
\<close>

definition substr :: "string \<Rightarrow> int \<Rightarrow> int \<Rightarrow> string" where
  "substr s start len =
     (let size = int (length s);
          intStart = (if start < 0 then max (size + start) 0 else min start size);
          intLength = min (max len 0) size;
          intEnd = min (intStart + intLength) size
      in if intStart \<ge> intEnd then []
         else take (nat (intEnd - intStart)) (drop (nat intStart) s))"

subsection \<open>Data\<close>

text \<open>An input fragment \<open>{text, sequence}\<close> of \<open>data.text\<close>.\<close>

record text_part =
  part_text :: string
  sequence :: int

text \<open>An element \<open>{text, offset}\<close> of the array that \<open>createTextChunks\<close> returns.\<close>

record chunk =
  chunk_text :: string
  offset :: int

text \<open>
  The objects \<open>{text, start, end}\<close> that \<open>joinTextChunksAndTrim\<close> reads. The record is
  extensible, as the objects are: the document \<open>{textId, text, start, end}\<close> that \<open>importData\<close>
  stores and the \<open>_source\<close> of a search hit both extend it.
\<close>

record ranged_text =
  rt_text :: string
  rt_start :: int
  rt_end :: int

record stored_chunk = ranged_text +
  sc_textId :: string

text \<open>
  What \<open>joinTextChunksAndTrim\<close> returns: \<open>{text, start, end}\<close>, or \<open>{text}\<close> alone, where the
  absent fields are \<open>None\<close>.
\<close>

record range_result =
  res_text :: string
  res_start :: "int option"
  res_end :: "int option"

text \<open>
  The value of the \<open>date\<close> field of a metadata object. \<open>Date_now_function\<close> is the function
  object \<open>Date.now\<close> itself, \<open>Date_number\<close> what a call of it would return.
\<close>

datatype date_value = Date_absent | Date_number int | Date_now_function

record 'm metadata =
  date :: date_value
  meta_rest :: 'm

text \<open>
  A semantics or typography annotation: a caller-supplied object of which the code only
  writes the field \<open>textId\<close>.
\<close>

record 'p annotation =
  ann_textId :: "string option"
  ann_rest :: 'p

text \<open>The argument \<open>data\<close> of \<open>importData\<close>.\<close>

record ('m, 'p) import_data =
  data_metadata :: "'m metadata"
  data_text :: "text_part list"
  data_semantics :: "'p annotation list"
  data_typography :: "'p annotation list"

subsection \<open>The ElasticSearch client\<close>

text \<open>
  The client is an external collaborator. Its operations are parameters: each takes the
  state of the store and returns the arguments that it passes to the continuation, with
  the new state. An error is an object with a \<open>message\<close>; \<open>Inl\<close> is a call of the
  continuation with an error, \<open>Inr\<close> one with \<open>null\<close> for the error.
\<close>

record store_error =
  message :: string
  err_detail :: string

record index_options =
  opt_id :: string
  opt_refresh :: bool
  opt_create :: bool

datatype ('m, 'p) document =
    Structure "'m metadata"
  | TextDoc stored_chunk
  | AnnotationDoc "'p annotation"

text \<open>The query object of \<open>buildRangeQuery\<close>: a \<open>bool\<close>/\<open>must\<close> list of clauses.\<close>

datatype range_op = Lt | Gte

datatype clause =
    TextClause string string
  | RangeClause string range_op int

record query =
  q_must :: "clause list"
  q_size :: int
  q_index :: string

text \<open>
  A search hit \<open>{_type, _id, _source}\<close>. Of a source the code reads \<open>text\<close> and \<open>start\<close>
  and writes \<open>id\<close>; \<open>textId\<close> and \<open>end\<close> are the fields the range query is about.
\<close>

record 'p source = ranged_text +
  src_textId :: string
  src_id :: "string option"
  src_rest :: 'p

record 'p hit =
  hit_type :: string
  hit_id :: string
  hit_source :: "'p source"

datatype ('m, 'p) request =
    IndexRequest string string "('m, 'p) document" "index_options option"
  | RefreshRequest string
  | SearchRequest query
  | GetRequest string string

text \<open>One call of the client, as the log keeps it: the request and the error it ended with.\<close>

record ('m, 'p) call =
  request :: "('m, 'p) request"
  failure :: "store_error option"

record ('s, 'm, 'p) env =
  textusIndex :: string
  index_op :: "'s \<Rightarrow> string \<Rightarrow> string \<Rightarrow> ('m, 'p) document \<Rightarrow> index_options option
                 \<Rightarrow> (store_error + string) \<times> 's"
  refresh_op :: "'s \<Rightarrow> string \<Rightarrow> store_error option \<times> 's"
  search_op :: "'s \<Rightarrow> query \<Rightarrow> (store_error + 'p hit list) \<times> 's"
  get_op :: "'s \<Rightarrow> string \<Rightarrow> string \<Rightarrow> (store_error + 'm metadata) \<times> 's"

text \<open>The state: the store, and the log of the calls made so far, oldest first.\<close>

record ('s, 'm, 'p) world =
  backend :: 's
  calls :: "('m, 'p) call list"

definition error_of :: "store_error + 'a \<Rightarrow> store_error option" where
  "error_of r = (case r of Inl err \<Rightarrow> Some err | Inr _ \<Rightarrow> None)"

definition logged :: "('s, 'm, 'p) world \<Rightarrow> ('m, 'p) request \<Rightarrow> store_error option \<Rightarrow> 's
    \<Rightarrow> ('s, 'm, 'p) world" where
  "logged w rq err s' = \<lparr>backend = s', calls = calls w @ [\<lparr>request = rq, failure = err\<rparr>]\<rparr>"

definition client_index :: "('s, 'm, 'p) env \<Rightarrow> string \<Rightarrow> string \<Rightarrow> ('m, 'p) document
    \<Rightarrow> index_options option \<Rightarrow> ('s, 'm, 'p) world \<Rightarrow> (store_error + string) \<times> ('s, 'm, 'p) world" where
  "client_index env index type item opts w =
     (let (r, s') = index_op env (backend w) index type item opts
      in (r, logged w (IndexRequest index type item opts) (error_of r) s'))"

definition client_refresh :: "('s, 'm, 'p) env \<Rightarrow> string \<Rightarrow> ('s, 'm, 'p) world
    \<Rightarrow> store_error option \<times> ('s, 'm, 'p) world" where
  "client_refresh env index w =
     (let (err, s') = refresh_op env (backend w) index
      in (err, logged w (RefreshRequest index) err s'))"

definition client_search :: "('s, 'm, 'p) env \<Rightarrow> query \<Rightarrow> ('s, 'm, 'p) world
    \<Rightarrow> (store_error + 'p hit list) \<times> ('s, 'm, 'p) world" where
  "client_search env q w =
     (let (r, s') = search_op env (backend w) q
      in (r, logged w (SearchRequest q) (error_of r) s'))"

definition client_get :: "('s, 'm, 'p) env \<Rightarrow> string \<Rightarrow> string \<Rightarrow> ('s, 'm, 'p) world
    \<Rightarrow> (store_error + 'm metadata) \<times> ('s, 'm, 'p) world" where
  "client_get env index ident w =
     (let (r, s') = get_op env (backend w) index ident
      in (r, logged w (GetRequest index ident) (error_of r) s'))"

text \<open>\<open>textChunkSize\<close>: the maximum size of a stored chunk, in characters.\<close>

definition textChunkSize :: int where
  "textChunkSize = 1000"

subsection \<open>buildRangeQuery\<close>

definition buildRangeQuery :: "string \<Rightarrow> string \<Rightarrow> int \<Rightarrow> int \<Rightarrow> query" where
  "buildRangeQuery index textId start end =
     \<lparr>q_must = [TextClause ''textId'' textId,
                RangeClause ''start'' Lt end,
                RangeClause ''end'' Gte start],
      q_size = 1000000,
      q_index = index\<rparr>"

text \<open>
  Modelled from the spec: how the document store reads a query is not code of this
  repository. The spec's section 6 has the query as a boolean "must" list of field-match
  and numeric-range clauses; a record is selected when it satisfies every clause, a
  field-match clause when the named field has the value, a range clause when the named
  numeric field is below (\<open>lt\<close>) or not below (\<open>gte\<close>) the bound.
\<close>

definition numeric_field :: "'p source \<Rightarrow> string \<Rightarrow> int option" where
  "numeric_field r f =
     (if f = ''start'' then Some (rt_start r)
      else if f = ''end'' then Some (rt_end r)
      else None)"

definition text_field :: "'p source \<Rightarrow> string \<Rightarrow> string option" where
  "text_field r f = (if f = ''textId'' then Some (src_textId r) else None)"

fun satisfies_clause :: "'p source \<Rightarrow> clause \<Rightarrow> bool" where
  "satisfies_clause r (TextClause f v) = (text_field r f = Some v)"
| "satisfies_clause r (RangeClause f Lt v) =
     (case numeric_field r f of None \<Rightarrow> False | Some x \<Rightarrow> x < v)"
| "satisfies_clause r (RangeClause f Gte v) =
     (case numeric_field r f of None \<Rightarrow> False | Some x \<Rightarrow> x \<ge> v)"

definition selects :: "query \<Rightarrow> 'p source \<Rightarrow> bool" where
  "selects q r = list_all (satisfies_clause r) (q_must q)"

subsection \<open>createTextChunks\<close>

text \<open>
  The \<open>while (text != "")\<close> loop, on the loop variables \<open>text\<close>, \<open>offset\<close> and \<open>result\<close>.
  The local \<open>length\<close> of the source is \<open>idx\<close> here. In the branch \<open>length == -1\<close> the source
  assigns \<open>length = text.length\<close> and does nothing else, so the next iteration starts from
  the same \<open>text\<close>, \<open>offset\<close> and \<open>result\<close>. The loop may therefore not return: \<open>None\<close> is
  "does not return".
\<close>

partial_function (option) createTextChunks_loop ::
  "int \<Rightarrow> string \<Rightarrow> int \<Rightarrow> chunk list \<Rightarrow> chunk list option" where
  "createTextChunks_loop maxSize text offs result =
     (if text = [] then Some result
      else
        let idx = lastIndexOf text CHR '' '' maxSize in
        if idx = -1 then
          createTextChunks_loop maxSize text offs result
        else if idx = 0 then
          createTextChunks_loop maxSize [] offs
            (result @ [\<lparr>chunk_text = text, offset = offs\<rparr>])
        else
          createTextChunks_loop maxSize (drop (nat idx) text) (offs + idx)
            (result @ [\<lparr>chunk_text = take (nat idx) text, offset = offs\<rparr>]))"

declare createTextChunks_loop.simps [code]

text \<open>
  The merged text: \<open>data.text\<close> sorted by \<open>sequence\<close> (a stable sort), the \<open>text\<close> fields
  joined with the empty separator.
\<close>

definition mergedText :: "text_part list \<Rightarrow> string" where
  "mergedText parts = concat (map part_text (sort_key sequence parts))"

definition createTextChunks :: "int \<Rightarrow> ('m, 'p) import_data \<Rightarrow> chunk list option" where
  "createTextChunks maxSize data = createTextChunks_loop maxSize (mergedText (data_text data)) 0 []"

subsection \<open>joinTextChunksAndTrim\<close>

text \<open>\<open>chunks.sort\<close> by \<open>start\<close> is a stable sort; \<open>chunks[0]\<close> is read of a non-empty array.\<close>

definition joinTextChunksAndTrim ::
  "int option \<Rightarrow> int option \<Rightarrow> 'a ranged_text_scheme list \<Rightarrow> range_result" where
  "joinTextChunksAndTrim start end chunks =
     (if length chunks = 0 then \<lparr>res_text = [], res_start = Some 0, res_end = Some 0\<rparr>
      else
        let sorted = sort_key rt_start chunks in
        (case (start, end) of
           (Some s, Some e) \<Rightarrow>
             \<lparr>res_text = substr (concat (map rt_text sorted)) (s - rt_start (hd sorted)) (e - s),
              res_start = Some s, res_end = Some e\<rparr>
         | _ \<Rightarrow>
             \<lparr>res_text = concat (map rt_text sorted), res_start = None, res_end = None\<rparr>))"

subsection \<open>indexArray and indexArrays\<close>

text \<open>
  \<open>indexArray\<close> shifts the first item off the list and recurses from the continuation of
  \<open>client.index\<close>. The items are objects, so \<open>if (item)\<close> fails exactly when the list was
  empty. The result is the argument of \<open>callback\<close>.
\<close>

fun indexArray :: "('s, 'm, 'p) env \<Rightarrow> string \<Rightarrow> string \<Rightarrow> ('m, 'p) document list
    \<Rightarrow> ('s, 'm, 'p) world \<Rightarrow> store_error option \<times> ('s, 'm, 'p) world" where
  "indexArray env index type [] w = (None, w)"
| "indexArray env index type (item # list) w =
     (case client_index env index type item None w of
        (Inl err, w') \<Rightarrow> (Some err, w')
      | (Inr res, w') \<Rightarrow> indexArray env index type list w')"

text \<open>An element \<open>{type, list}\<close> of the argument \<open>lists\<close> of \<open>indexArrays\<close>.\<close>

record ('m, 'p) collection =
  c_type :: string
  c_list :: "('m, 'p) document list"

fun indexArrays :: "('s, 'm, 'p) env \<Rightarrow> string \<Rightarrow> ('m, 'p) collection list
    \<Rightarrow> ('s, 'm, 'p) world \<Rightarrow> store_error option \<times> ('s, 'm, 'p) world" where
  "indexArrays env index [] w = (None, w)"
| "indexArrays env index (wrap # lists') w =
     (case indexArray env index (c_type wrap) (c_list wrap) w of
        (Some err, w') \<Rightarrow> (Some (err\<lparr>message := ''Error while indexing '' @ c_type wrap\<rparr>), w')
      | (None, w') \<Rightarrow> indexArrays env index lists' w')"

subsection \<open>The datastore API\<close>

text \<open>
  \<open>regenerateBibliographicReferences\<close> is not implemented: it logs a line and calls back
  with \<open>null\<close>.
\<close>

definition regenerateBibliographicReferences :: "string \<Rightarrow> 'm metadata \<Rightarrow> store_error option" where
  "regenerateBibliographicReferences textId newMetadata = None"

text \<open>
  The result of an API function is the pair of arguments \<open>(err, value)\<close> of its call of
  \<open>callback\<close>, with the state after it.
\<close>

definition getTextMetadata :: "('s, 'm, 'p) env \<Rightarrow> string \<Rightarrow> ('s, 'm, 'p) world
    \<Rightarrow> (store_error option \<times> 'm metadata option) \<times> ('s, 'm, 'p) world" where
  "getTextMetadata env textId w =
     (case client_get env (textusIndex env) textId w of
        (Inl err, w') \<Rightarrow> ((Some err, None), w')
      | (Inr doc, w') \<Rightarrow> ((None, Some doc), w'))"

text \<open>
  \<open>updateTextMetadata\<close> assigns to \<open>newMetadata.date\<close>, a field of the caller's object: the
  third component of the result is that object after the call.
\<close>

definition updateTextMetadata :: "('s, 'm, 'p) env \<Rightarrow> string \<Rightarrow> 'm metadata \<Rightarrow> ('s, 'm, 'p) world
    \<Rightarrow> (store_error option \<times> 'm metadata option) \<times> ('s, 'm, 'p) world \<times> 'm metadata" where
  "updateTextMetadata env textId newMetadata w =
     (let newMetadata' = newMetadata\<lparr>date := Date_now_function\<rparr> in
      case client_index env (textusIndex env) ''structure'' (Structure newMetadata')
             (Some \<lparr>opt_id = textId, opt_refresh = True, opt_create = False\<rparr>) w of
        (Inl err, w') \<Rightarrow> ((Some err, None), w', newMetadata')
      | (Inr result, w') \<Rightarrow>
          (case regenerateBibliographicReferences textId newMetadata' of
             None \<Rightarrow> (let (cb, w'') = getTextMetadata env textId w' in (cb, w'', newMetadata'))
           | Some err \<Rightarrow> ((Some err, None), w', newMetadata')))"

text \<open>
  The error of the callback of \<open>fetchText\<close> is the error object of the search, or the string
  that \<open>fetchText\<close> builds for a hit of an unknown type.
\<close>

datatype fetch_error = SearchError store_error | ErrorMessage string

record 'p fetched =
  f_textId :: string
  f_text :: string
  f_typography :: "'p source list"
  f_semantics :: "'p source list"
  f_start :: int
  f_end :: int

text \<open>
  The body of \<open>results.hits.forEach\<close>, on the variables \<open>textChunks\<close>, \<open>typography\<close>,
  \<open>semantics\<close> and \<open>error\<close>.
\<close>

definition sortHit ::
  "'p source list \<times> 'p source list \<times> 'p source list \<times> string option \<Rightarrow> 'p hit
     \<Rightarrow> 'p source list \<times> 'p source list \<times> 'p source list \<times> string option" where
  "sortHit acc hit =
     (case acc of (textChunks, typography, semantics, error) \<Rightarrow>
        if hit_type hit = ''text'' then
          (textChunks @ [hit_source hit], typography, semantics, error)
        else if hit_type hit = ''typography'' then
          (textChunks, typography @ [(hit_source hit)\<lparr>src_id := Some (hit_id hit)\<rparr>], semantics, error)
        else if hit_type hit = ''semantics'' then
          (textChunks, typography, semantics @ [(hit_source hit)\<lparr>src_id := Some (hit_id hit)\<rparr>], error)
        else
          (textChunks, typography, semantics,
           Some (''Unknown result type! '' @ [CHR 0x27] @ hit_type hit @ [CHR 0x27] @ ''.'')))"

text \<open>\<open>start\<close> and \<open>end\<close> are character offsets, as the function's documentation has them.\<close>

definition fetchText :: "('s, 'm, 'p) env \<Rightarrow> string \<Rightarrow> int \<Rightarrow> int \<Rightarrow> ('s, 'm, 'p) world
    \<Rightarrow> (fetch_error option \<times> 'p fetched option) \<times> ('s, 'm, 'p) world" where
  "fetchText env textId start end w =
     (case client_search env (buildRangeQuery (textusIndex env) textId start end) w of
        (Inl err, w') \<Rightarrow> ((Some (SearchError err), None), w')
      | (Inr hits, w') \<Rightarrow>
          (case foldl sortHit ([], [], [], None) hits of
             (textChunks, typography, semantics, error) \<Rightarrow>
               ((map_option ErrorMessage error,
                 Some \<lparr>f_textId = textId,
                       f_text = res_text (joinTextChunksAndTrim (Some start) (Some end) textChunks),
                       f_typography = typography,
                       f_semantics = semantics,
                       f_start = start,
                       f_end = end\<rparr>), w')))"

text \<open>
  \<open>importData\<close>. The result has the arguments \<open>(err, textId)\<close> of the call of \<open>callback\<close>, or
  \<open>None\<close> when \<open>callback\<close> is never called because \<open>createTextChunks\<close> does not return; the
  state; and the caller's \<open>data\<close> after the call, which the function changes in place
  (\<open>data.metadata.date\<close>, the order of \<open>data.text\<close>, the \<open>textId\<close> of every annotation).
\<close>

record ('s, 'm, 'p) import_result =
  callback_args :: "(store_error option \<times> string option) option"
  world_after :: "('s, 'm, 'p) world"
  data_after :: "('m, 'p) import_data"

definition importData :: "('s, 'm, 'p) env \<Rightarrow> ('m, 'p) import_data \<Rightarrow> ('s, 'm, 'p) world
    \<Rightarrow> ('s, 'm, 'p) import_result" where
  "importData env data w =
     (let data1 = data\<lparr>data_metadata := (data_metadata data)\<lparr>date := Date_now_function\<rparr>\<rparr> in
      case client_index env (textusIndex env) ''structure'' (Structure (data_metadata data1)) None w of
        (Inl err, w1) \<Rightarrow>
          \<lparr>callback_args = Some (Some err, None), world_after = w1, data_after = data1\<rparr>
      | (Inr textId, w1) \<Rightarrow>
          (let data2 = data1\<lparr>data_text := sort_key sequence (data_text data1)\<rparr> in
           case createTextChunks textChunkSize data1 of
             None \<Rightarrow> \<lparr>callback_args = None, world_after = w1, data_after = data2\<rparr>
           | Some chunks \<Rightarrow>
               (let semantics = map (\<lambda>annotation. annotation\<lparr>ann_textId := Some textId\<rparr>)
                                  (data_semantics data2);
                    typography = map (\<lambda>annotation. annotation\<lparr>ann_textId := Some textId\<rparr>)
                                  (data_typography data2);
                    data3 = data2\<lparr>data_semantics := semantics, data_typography := typography\<rparr>;
                    dataToIndex =
                      [\<lparr>c_type = ''text'',
                        c_list = map (\<lambda>chunk. TextDoc
                                   \<lparr>rt_text = chunk_text chunk,
                                    rt_start = offset chunk,
                                    rt_end = offset chunk + int (length (chunk_text chunk)),
                                    sc_textId = textId\<rparr>) chunks\<rparr>,
                       \<lparr>c_type = ''semantics'', c_list = map AnnotationDoc semantics\<rparr>,
                       \<lparr>c_type = ''typography'', c_list = map AnnotationDoc typography\<rparr>];
                    (err, w2) = indexArrays env (textusIndex env) dataToIndex w1;
                    (err', w3) = client_refresh env (textusIndex env) w2
                in \<lparr>callback_args = Some (err', Some textId), world_after = w3,
                    data_after = data3\<rparr>)))"

section \<open>Notions used in the statements\<close>

text \<open>
  A list of chunks is contiguous from \<open>offs\<close>: the first one starts at \<open>offs\<close> and each next
  one where the text of the one before ends.
\<close>

fun contiguous_from :: "int \<Rightarrow> chunk list \<Rightarrow> bool" where
  "contiguous_from offs [] = True"
| "contiguous_from offs (c # cs) =
     (offset c = offs \<and> contiguous_from (offs + int (length (chunk_text c))) cs)"

text \<open>
  What the loop of \<open>createTextChunks\<close> has appended when it returns from the text \<open>t\<close> at
  offset \<open>off\<close>: contiguous chunks with non-empty texts that concatenate to \<open>t\<close>, each but
  the last of at most \<open>m\<close> characters, the last one of at most \<open>m\<close> characters or with its
  only space at or before index \<open>m\<close> at index 0.
\<close>

definition loop_post :: "int \<Rightarrow> string \<Rightarrow> int \<Rightarrow> chunk list \<Rightarrow> bool" where
  "loop_post m t off new \<longleftrightarrow> contiguous_from off new \<and> concat (map chunk_text new) = t \<and>
     (\<forall>c\<in>set new. chunk_text c \<noteq> []) \<and>
     (\<forall>c\<in>set (butlast new). int (length (chunk_text c)) \<le> m) \<and>
     (new \<noteq> [] \<longrightarrow> int (length (chunk_text (last new))) \<le> m \<or>
         lastIndexOf (chunk_text (last new)) CHR '' '' m = 0)"

text \<open>
  The records \<open>slices\<close>, in this order, cover the text \<open>original\<close> contiguously and exactly
  from the offset \<open>off\<close>: each starts where the one before ends, \<open>end - start\<close> is the
  length of its text, and its text is the next piece of \<open>original\<close>, with nothing left
  over at the end.
\<close>

fun covers_from :: "int \<Rightarrow> 'a ranged_text_scheme list \<Rightarrow> string \<Rightarrow> bool" where
  "covers_from off [] original = (original = [])"
| "covers_from off (r # rs) original =
     (rt_start r = off \<and> rt_end r = off + int (length (rt_text r)) \<and>
      take (length (rt_text r)) original = rt_text r \<and>
      covers_from (rt_end r) rs (drop (length (rt_text r)) original))"

text \<open>An import of text parts alone, with no annotations.\<close>

definition parts_only :: "text_part list \<Rightarrow> (unit, unit) import_data" where
  "parts_only parts =
     \<lparr>data_metadata = \<lparr>date = Date_absent, meta_rest = ()\<rparr>,
      data_text = parts, data_semantics = [], data_typography = []\<rparr>"

text \<open>The type under which an index request stores its document.\<close>

fun request_type :: "('m, 'p) request \<Rightarrow> string" where
  "request_type (IndexRequest index type item opts) = type"
| "request_type _ = []"

text \<open>
  The writes that \<open>indexArrays\<close> is asked for, in the supplied order: collection after
  collection, and within a collection record after record, each under the type of its
  collection.
\<close>

definition writes_of :: "string \<Rightarrow> ('m, 'p) collection list \<Rightarrow> ('m, 'p) request list" where
  "writes_of index lists' =
     concat (map (\<lambda>wrap. map (\<lambda>item. IndexRequest index (c_type wrap) item None) (c_list wrap))
               lists')"

text \<open>
  The calls \<open>new\<close> are a run of the requests \<open>reqs\<close> that stops at the first failure:
  they are the first requests of \<open>reqs\<close>, in order; all but the last succeeded; if the
  run ended without an error every request was made and succeeded; and if it ended with
  the error \<open>e\<close> then the last call made is the one that failed with \<open>e\<close>.
\<close>

definition stops_at_first_failure ::
  "('m, 'p) request list \<Rightarrow> ('m, 'p) call list \<Rightarrow> store_error option \<Rightarrow> bool" where
  "stops_at_first_failure reqs new err \<longleftrightarrow>
     length new \<le> length reqs \<and>
     map request new = take (length new) reqs \<and>
     (\<forall>c\<in>set (butlast new). failure c = None) \<and>
     (err = None \<longrightarrow> length new = length reqs \<and> (\<forall>c\<in>set new. failure c = None)) \<and>
     (\<forall>e. err = Some e \<longrightarrow> new \<noteq> [] \<and> failure (last new) = Some e)"

text \<open>
  A store for concrete runs. Its state counts the index calls made; the call number \<open>n\<close>
  (from 0) fails, every other one succeeds with the identifier \<open>"id-1"\<close>; a refresh
  succeeds; a search returns the hits \<open>hs\<close>.
\<close>

definition failing_store :: "nat \<Rightarrow> unit hit list \<Rightarrow> (nat, unit, unit) env" where
  "failing_store n hs =
     \<lparr>textusIndex = ''textus'',
      index_op = (\<lambda>s index type item opts.
         (if s = n then Inl \<lparr>message = ''write failed'', err_detail = ''503''\<rparr> else Inr ''id-1'',
          Suc s)),
      refresh_op = (\<lambda>s index. (None, s)),
      search_op = (\<lambda>s q. (Inr hs, s)),
      get_op = (\<lambda>s index ident. (Inr \<lparr>date = Date_absent, meta_rest = ()\<rparr>, s))\<rparr>"

text \<open>
  A store that keeps what it is sent as JSON text, as a client that talks to the store
  over HTTP does. JSON has no function values: a field whose value is a function is left
  out of the text, so a \<open>date\<close> that is the function \<open>Date.now\<close> is absent from the
  record that is kept. The state is the list of the records kept, each with its type;
  every call succeeds.
\<close>

fun serialised :: "('m, 'p) document \<Rightarrow> ('m, 'p) document" where
  "serialised (Structure m) =
     Structure (if date m = Date_now_function then m\<lparr>date := Date_absent\<rparr> else m)"
| "serialised d = d"

definition serialising_store ::
  "((string \<times> (unit, unit) document) list, unit, unit) env" where
  "serialising_store =
     \<lparr>textusIndex = ''textus'',
      index_op = (\<lambda>s index type item opts. (Inr ''id-1'', s @ [(type, serialised item)])),
      refresh_op = (\<lambda>s index. (None, s)),
      search_op = (\<lambda>s q. (Inr [], s)),
      get_op = (\<lambda>s index ident. (Inr \<lparr>date = Date_absent, meta_rest = ()\<rparr>, s))\<rparr>"

definition empty_store :: "((string \<times> (unit, unit) document) list, unit, unit) world" where
  "empty_store = \<lparr>backend = [], calls = []\<rparr>"

text \<open>The store before any call, and the two collections of the spec's example.\<close>

definition fresh_world :: "(nat, unit, unit) world" where
  "fresh_world = \<lparr>backend = 0, calls = []\<rparr>"

definition example_collections :: "(unit, unit) collection list" where
  "example_collections =
     [\<lparr>c_type = ''text'',
       c_list = [TextDoc \<lparr>rt_text = ''the'', rt_start = 0, rt_end = 3, sc_textId = ''id-1''\<rparr>,
                 TextDoc \<lparr>rt_text = '' hello'', rt_start = 3, rt_end = 9, sc_textId = ''id-1''\<rparr>]\<rparr>,
      \<lparr>c_type = ''semantics'',
       c_list = [AnnotationDoc \<lparr>ann_textId = Some ''id-1'', ann_rest = ()\<rparr>]\<rparr>]"

text \<open>
  What the example's run is to end with when the second write fails: the error, and the
  store with the log of the two writes made.
\<close>

definition example_error :: store_error where
  "example_error = \<lparr>message = ''Error while indexing text'', err_detail = ''503''\<rparr>"

definition example_world_after :: "(nat, unit, unit) world" where
  "example_world_after =
     \<lparr>backend = 2,
      calls = [\<lparr>request = IndexRequest ''textus'' ''text''
                  (TextDoc \<lparr>rt_text = ''the'', rt_start = 0, rt_end = 3, sc_textId = ''id-1''\<rparr>) None,
                failure = None\<rparr>,
               \<lparr>request = IndexRequest ''textus'' ''text''
                  (TextDoc \<lparr>rt_text = '' hello'', rt_start = 3, rt_end = 9, sc_textId = ''id-1''\<rparr>) None,
                failure = Some \<lparr>message = ''write failed'', err_detail = ''503''\<rparr>\<rparr>]\<rparr>"

text \<open>
  A hit of a type that \<open>fetchText\<close> does not know, the message it builds for one, and the
  source of an annotation hit with the \<open>id\<close> that \<open>fetchText\<close> writes into it.
\<close>

definition unknown_type :: "'p hit \<Rightarrow> bool" where
  "unknown_type h \<longleftrightarrow>
     hit_type h \<noteq> ''text'' \<and> hit_type h \<noteq> ''typography'' \<and> hit_type h \<noteq> ''semantics''"

definition unknown_message :: "'p hit \<Rightarrow> string" where
  "unknown_message h = ''Unknown result type! '' @ [CHR 0x27] @ hit_type h @ [CHR 0x27] @ ''.''"

definition with_id :: "'p hit \<Rightarrow> 'p source" where
  "with_id h = (hit_source h)\<lparr>src_id := Some (hit_id h)\<rparr>"

definition example_hits :: "unit hit list" where
  "example_hits =
     [\<lparr>hit_type = ''text'', hit_id = ''c2'',
       hit_source = \<lparr>rt_text = '' hello'', rt_start = 3, rt_end = 9,
                     src_textId = ''id-1'', src_id = None, src_rest = ()\<rparr>\<rparr>,
      \<lparr>hit_type = ''bibjson'', hit_id = ''b1'',
       hit_source = \<lparr>rt_text = [], rt_start = 0, rt_end = 20,
                     src_textId = ''id-1'', src_id = None, src_rest = ()\<rparr>\<rparr>,
      \<lparr>hit_type = ''typography'', hit_id = ''y1'',
       hit_source = \<lparr>rt_text = [], rt_start = 0, rt_end = 3,
                     src_textId = ''id-1'', src_id = None, src_rest = ()\<rparr>\<rparr>,
      \<lparr>hit_type = ''text'', hit_id = ''c1'',
       hit_source = \<lparr>rt_text = ''the'', rt_start = 0, rt_end = 3,
                     src_textId = ''id-1'', src_id = None, src_rest = ()\<rparr>\<rparr>]"

section \<open>Properties\<close>

subsection \<open>lastIndexOf\<close>

lemma lastIndexFrom_cases:
  "lastIndexFrom s c k = -1 \<or>
   (0 \<le> lastIndexFrom s c k \<and> lastIndexFrom s c k \<le> int k \<and>
    nat (lastIndexFrom s c k) < length s \<and> s ! nat (lastIndexFrom s c k) = c)"
  by (induction k) (auto simp del: of_nat_Suc simp: nat_add_distrib)

lemma lastIndexFrom_found:
  "i \<le> k \<Longrightarrow> i < length s \<Longrightarrow> s ! i = c \<Longrightarrow> int i \<le> lastIndexFrom s c k"
proof (induction k)
  case 0
  then show ?case by simp
next
  case (Suc k)
  show ?case
  proof (cases "i = Suc k")
    case True
    with Suc.prems show ?thesis by simp
  next
    case False
    with Suc.prems have "i \<le> k" by simp
    from Suc.IH [OF this Suc.prems(2,3)] \<open>i \<le> k\<close> show ?thesis by auto
  qed
qed

lemma lastIndexOf_cases:
  "lastIndexOf s c p = -1 \<or>
   (0 \<le> lastIndexOf s c p \<and> lastIndexOf s c p \<le> max p 0 \<and>
    nat (lastIndexOf s c p) < length s \<and> s ! nat (lastIndexOf s c p) = c)"
proof (cases "min (max p 0) (int (length s) - 1) < 0")
  case True
  then show ?thesis by (simp add: lastIndexOf_def Let_def)
next
  case False
  define k where "k = nat (min (max p 0) (int (length s) - 1))"
  from False have eq: "lastIndexOf s c p = lastIndexFrom s c k"
    by (simp add: lastIndexOf_def Let_def k_def)
  from False have "int k \<le> max p 0" by (simp add: k_def)
  with lastIndexFrom_cases [of s c k]
  show ?thesis unfolding eq by linarith
qed

lemma lastIndexOf_leading:
  assumes "s \<noteq> []" and "s ! 0 = c"
  shows "0 \<le> lastIndexOf s c p"
proof -
  define k where "k = nat (min (max p 0) (int (length s) - 1))"
  from assms(1) have "0 < length s" by simp
  then have nneg: "\<not> min (max p 0) (int (length s) - 1) < 0" by linarith
  then have eq: "lastIndexOf s c p = lastIndexFrom s c k"
    by (simp add: lastIndexOf_def Let_def k_def)
  have "int 0 \<le> lastIndexFrom s c k"
    using assms by (intro lastIndexFrom_found) simp_all
  then show ?thesis by (simp add: eq)
qed

subsection \<open>The loop of createTextChunks\<close>

text \<open>
  When no space is found in a non-empty text, the loop repeats on the same state and
  never returns.
\<close>

lemma loop_diverges:
  assumes "text \<noteq> []" and "lastIndexOf text CHR '' '' maxSize = -1"
  shows "createTextChunks_loop maxSize text offs result = None"
proof (rule ccontr)
  assume "createTextChunks_loop maxSize text offs result \<noteq> None"
  then obtain y where y: "createTextChunks_loop maxSize text offs result = Some y"
    by auto
  have "text = [] \<or> lastIndexOf text CHR '' '' maxSize \<noteq> -1"
  proof (rule createTextChunks_loop.raw_induct
          [where P = "\<lambda>m t off r y. t = [] \<or> lastIndexOf t CHR '' '' m \<noteq> -1", OF _ y])
    fix f :: "int \<Rightarrow> string \<Rightarrow> int \<Rightarrow> chunk list \<Rightarrow> chunk list option"
      and m t off r z
    assume IH: "\<And>m t off r z. f m t off r = Some z \<Longrightarrow> t = [] \<or> lastIndexOf t CHR '' '' m \<noteq> -1"
      and body: "(if t = [] then Some r
          else let idx = lastIndexOf t CHR '' '' m
               in if idx = - 1 then f m t off r
                  else if idx = 0 then f m [] off (r @ [\<lparr>chunk_text = t, offset = off\<rparr>])
                  else f m (drop (nat idx) t) (off + idx)
                         (r @ [\<lparr>chunk_text = take (nat idx) t, offset = off\<rparr>])) = Some z"
    show "t = [] \<or> lastIndexOf t CHR '' '' m \<noteq> -1"
    proof (rule ccontr)
      assume "\<not> (t = [] \<or> lastIndexOf t CHR '' '' m \<noteq> -1)"
      then have "t \<noteq> []" and "lastIndexOf t CHR '' '' m = -1" by simp_all
      with body have "f m t off r = Some z" by simp
      from IH [OF this] \<open>t \<noteq> []\<close> \<open>lastIndexOf t CHR '' '' m = -1\<close> show False by simp
    qed
  qed
  with assms show False by simp
qed

lemma loop_post_empty: "loop_post m [] off new \<Longrightarrow> new = []"
  by (cases new) (auto simp: loop_post_def)

lemma loop_invariant:
  assumes y: "createTextChunks_loop maxSize text offs result = Some y"
  shows "\<exists>new. y = result @ new \<and> loop_post maxSize text offs new"
proof (rule createTextChunks_loop.raw_induct
          [where P = "\<lambda>m t off r y. \<exists>new. y = r @ new \<and> loop_post m t off new", OF _ y])
  fix f :: "int \<Rightarrow> string \<Rightarrow> int \<Rightarrow> chunk list \<Rightarrow> chunk list option"
    and m t off r z
  assume IH: "\<And>m t off r z. f m t off r = Some z \<Longrightarrow> \<exists>new. z = r @ new \<and> loop_post m t off new"
    and body: "(if t = [] then Some r
        else let idx = lastIndexOf t CHR '' '' m
             in if idx = - 1 then f m t off r
                else if idx = 0 then f m [] off (r @ [\<lparr>chunk_text = t, offset = off\<rparr>])
                else f m (drop (nat idx) t) (off + idx)
                       (r @ [\<lparr>chunk_text = take (nat idx) t, offset = off\<rparr>])) = Some z"
  define idx where "idx = lastIndexOf t CHR '' '' m"
  consider (empty) "t = []" | (none) "t \<noteq> []" "idx = -1" | (zero) "t \<noteq> []" "idx = 0"
    | (split) "t \<noteq> []" "idx \<noteq> -1" "idx \<noteq> 0"
    by blast
  then show "\<exists>new. z = r @ new \<and> loop_post m t off new"
  proof cases
    case empty
    with body have "z = r" by simp
    moreover have "loop_post m t off []" using empty by (simp add: loop_post_def)
    ultimately show ?thesis by simp
  next
    case none
    with body have "f m t off r = Some z" by (simp add: idx_def Let_def)
    from IH [OF this] show ?thesis .
  next
    case zero
    with body have "f m [] off (r @ [\<lparr>chunk_text = t, offset = off\<rparr>]) = Some z"
      by (simp add: idx_def Let_def)
    from IH [OF this] obtain new where new: "z = (r @ [\<lparr>chunk_text = t, offset = off\<rparr>]) @ new"
      and "loop_post m [] off new" by blast
    then have "new = []" by (simp add: loop_post_empty)
    with new have "z = r @ [\<lparr>chunk_text = t, offset = off\<rparr>]" by simp
    moreover have "loop_post m t off [\<lparr>chunk_text = t, offset = off\<rparr>]"
      using zero by (simp add: loop_post_def idx_def)
    ultimately show ?thesis by blast
  next
    case split
    from lastIndexOf_cases [of t "CHR '' ''" m] split
    have pos: "0 < idx" and le: "idx \<le> m" and lt: "nat idx < length t"
      by (auto simp: idx_def)
    let ?c = "\<lparr>chunk_text = take (nat idx) t, offset = off\<rparr>"
    from split body have "f m (drop (nat idx) t) (off + idx) (r @ [?c]) = Some z"
      by (simp add: idx_def Let_def)
    from IH [OF this] obtain new where new: "z = (r @ [?c]) @ new"
      and post: "loop_post m (drop (nat idx) t) (off + idx) new" by blast
    from lt have "drop (nat idx) t \<noteq> []" by simp
    with post have ne: "new \<noteq> []" by (auto simp: loop_post_def)
    from lt pos have len: "int (length (take (nat idx) t)) = idx" by simp
    have "loop_post m t off (?c # new)"
      using post ne pos le lt len by (auto simp: loop_post_def)
    with new show ?thesis by auto
  qed
qed


lemma loop_empty: "createTextChunks_loop m [] off r = Some r"
  by (subst createTextChunks_loop.simps) simp

lemma loop_returns_leading:
  "t = [] \<or> t ! 0 = CHR '' '' \<Longrightarrow> \<exists>y. createTextChunks_loop m t off r = Some y"
proof (induction "length t" arbitrary: t off r rule: less_induct)
  case less
  define idx where "idx = lastIndexOf t CHR '' '' m"
  show ?case
  proof (cases "t = []")
    case True
    then show ?thesis by (simp add: loop_empty)
  next
    case False
    with less.prems have lead: "t ! 0 = CHR '' ''" by simp
    from lastIndexOf_leading [OF False lead] have nneg: "0 \<le> idx" by (simp add: idx_def)
    show ?thesis
    proof (cases "idx = 0")
      case True
      with False show ?thesis
        by (simp add: createTextChunks_loop.simps [of m t] idx_def loop_empty)
    next
      case pos: False
      from lastIndexOf_cases [of t "CHR '' ''" m] nneg pos
      have lt: "nat idx < length t" and sp: "t ! nat idx = CHR '' ''"
        by (auto simp: idx_def)
      from lt have "drop (nat idx) t ! 0 = t ! nat idx" by simp
      with sp have lead': "drop (nat idx) t = [] \<or> drop (nat idx) t ! 0 = CHR '' ''" by simp
      from pos nneg lt have "length (drop (nat idx) t) < length t" by simp
      from less.hyps [OF this lead']
      obtain y where "createTextChunks_loop m (drop (nat idx) t) (off + idx)
          (r @ [\<lparr>chunk_text = take (nat idx) t, offset = off\<rparr>]) = Some y"
        by blast
      with False pos nneg show ?thesis
        by (simp add: createTextChunks_loop.simps [of m t off r] idx_def Let_def)
    qed
  qed
qed

lemma loop_returns:
  assumes "t = [] \<or> lastIndexOf t CHR '' '' m \<noteq> -1"
  shows "\<exists>y. createTextChunks_loop m t off r = Some y"
proof (cases "t = []")
  case True
  then show ?thesis by (simp add: loop_empty)
next
  case False
  define idx where "idx = lastIndexOf t CHR '' '' m"
  from assms False have found: "idx \<noteq> -1" by (simp add: idx_def)
  show ?thesis
  proof (cases "idx = 0")
    case True
    with False show ?thesis
      by (simp add: createTextChunks_loop.simps [of m t] idx_def loop_empty)
  next
    case pos: False
    from lastIndexOf_cases [of t "CHR '' ''" m] found pos
    have lt: "nat idx < length t" and sp: "t ! nat idx = CHR '' ''"
      by (auto simp: idx_def)
    from lt have "drop (nat idx) t ! 0 = t ! nat idx" by simp
    with sp have "drop (nat idx) t = [] \<or> drop (nat idx) t ! 0 = CHR '' ''" by simp
    from loop_returns_leading [OF this]
    obtain y where "createTextChunks_loop m (drop (nat idx) t) (off + idx)
        (r @ [\<lparr>chunk_text = take (nat idx) t, offset = off\<rparr>]) = Some y"
      by blast
    with False pos found show ?thesis
      by (simp add: createTextChunks_loop.simps [of m t off r] idx_def Let_def)
  qed
qed

lemma createTextChunks_returns_iff:
  "(\<exists>chunks. createTextChunks maxSize data = Some chunks) \<longleftrightarrow>
   (mergedText (data_text data) = [] \<or>
    lastIndexOf (mergedText (data_text data)) CHR '' '' maxSize \<noteq> -1)"
proof
  assume "\<exists>chunks. createTextChunks maxSize data = Some chunks"
  then show "mergedText (data_text data) = [] \<or>
    lastIndexOf (mergedText (data_text data)) CHR '' '' maxSize \<noteq> -1"
    using loop_diverges [of "mergedText (data_text data)" maxSize 0 "[]"]
    by (auto simp: createTextChunks_def)
next
  assume "mergedText (data_text data) = [] \<or>
    lastIndexOf (mergedText (data_text data)) CHR '' '' maxSize \<noteq> -1"
  from loop_returns [OF this] show "\<exists>chunks. createTextChunks maxSize data = Some chunks"
    by (simp add: createTextChunks_def)
qed

subsection \<open>createTextChunks\<close>


lemma createTextChunks_post:
  assumes "createTextChunks maxSize data = Some chunks"
  shows "loop_post maxSize (mergedText (data_text data)) 0 chunks"
  using loop_invariant [of maxSize "mergedText (data_text data)" 0 "[]" chunks] assms
  by (simp add: createTextChunks_def)

text \<open>
  Whenever \<open>createTextChunks\<close> returns, the chunk texts concatenate to the merged text and
  the offsets are contiguous from 0.
\<close>

lemma createTextChunks_roundtrip:
  assumes "createTextChunks maxSize data = Some chunks"
  shows "concat (map chunk_text chunks) = mergedText (data_text data) \<and> contiguous_from 0 chunks"
  using createTextChunks_post [OF assms] by (simp add: loop_post_def)





text \<open>
  C2, as amended: the parts \<open>[{sequence:1, text:"hello "}, {sequence:0, text:"the "}]\<close> merge
  into \<open>"the hello "\<close>, and with \<open>maxSize = 6\<close> the result is the three chunks
  \<open>[{offset:0, text:"the"}, {offset:3, text:" hello"}, {offset:9, text:" "}]\<close>: a chunk ends
  before the space it was split at.
\<close>

theorem createTextChunks_example:
  "mergedText [\<lparr>part_text = ''hello '', sequence = 1\<rparr>, \<lparr>part_text = ''the '', sequence = 0\<rparr>] = ''the hello '' \<and>
   createTextChunks 6 (parts_only [\<lparr>part_text = ''hello '', sequence = 1\<rparr>, \<lparr>part_text = ''the '', sequence = 0\<rparr>]) =
     Some [\<lparr>chunk_text = ''the'', offset = 0\<rparr>, \<lparr>chunk_text = '' hello'', offset = 3\<rparr>,
           \<lparr>chunk_text = '' '', offset = 9\<rparr>]"
  by code_simp

text \<open>
  C2, counterexample to the claim as stated: the result is not the two chunks
  \<open>[{offset:0, text:"the "}, {offset:4, text:"hello "}]\<close>.
\<close>

theorem createTextChunks_not_two_chunks:
  "createTextChunks 6 (parts_only [\<lparr>part_text = ''hello '', sequence = 1\<rparr>, \<lparr>part_text = ''the '', sequence = 0\<rparr>]) \<noteq>
     Some [\<lparr>chunk_text = ''the '', offset = 0\<rparr>, \<lparr>chunk_text = ''hello '', offset = 4\<rparr>]"
  by code_simp

text \<open>
  C4: the chunks should concatenate to the merged text for every input. For the single
  part \<open>"abc"\<close> and \<open>maxSize = 6\<close> no space is found, the branch \<open>length == -1\<close> changes
  neither \<open>text\<close> nor \<open>result\<close>, and \<open>createTextChunks\<close> does not return.
\<close>

theorem createTextChunks_hangs_without_space:
  "createTextChunks 6 (parts_only [\<lparr>part_text = ''abc'', sequence = 0\<rparr>]) = None"
proof -
  have m: "mergedText (data_text (parts_only [\<lparr>part_text = ''abc'', sequence = 0\<rparr>])) = ''abc''"
    by code_simp
  have "lastIndexOf ''abc'' CHR '' '' 6 = -1" by code_simp
  then have "createTextChunks_loop 6 ''abc'' 0 [] = None"
    by (intro loop_diverges) simp_all
  with m show ?thesis by (simp add: createTextChunks_def)
qed

subsection \<open>joinTextChunksAndTrim\<close>

lemma substr_whole: "substr s 0 (int (length s)) = s"
  by (simp add: substr_def Let_def)

lemma covers_from_start_ge:
  "covers_from off ss T \<Longrightarrow> r \<in> set ss \<Longrightarrow> off \<le> rt_start r"
proof (induction ss arbitrary: off T)
  case Nil
  then show ?case by simp
next
  case (Cons s ss)
  show ?case
  proof (cases "r = s")
    case True
    with Cons.prems show ?thesis by simp
  next
    case False
    with Cons.prems(2) have rin: "r \<in> set ss" by simp
    from Cons.prems(1) have rest: "covers_from (rt_end s) ss (drop (length (rt_text s)) T)"
      and en: "rt_end s = off + int (length (rt_text s))"
      unfolding covers_from.simps by blast+
    from Cons.IH [OF rest rin] en show ?thesis by simp
  qed
qed

lemma concat_remove1_empty:
  "s \<in> set xs \<Longrightarrow> rt_text s = [] \<Longrightarrow>
   concat (map rt_text (remove1 s xs)) = concat (map rt_text xs)"
  by (induction xs) auto

text \<open>
  Any arrangement by ascending \<open>start\<close> of records that cover a text joins to that text:
  records that share a \<open>start\<close> have empty texts, all but at most one.
\<close>

lemma covers_from_sorted_concat:
  "covers_from off ss T \<Longrightarrow> mset xs = mset ss \<Longrightarrow> sorted (map rt_start xs) \<Longrightarrow>
   concat (map rt_text xs) = T"
proof (induction ss arbitrary: off T xs)
  case Nil
  then show ?case by simp
next
  case (Cons s ss)
  from Cons.prems(2) have sin: "s \<in> set xs"
    by (metis list.set_intros(1) set_mset_mset)
  from Cons.prems(1) have st: "rt_start s = off" and en: "rt_end s = off + int (length (rt_text s))"
    and tx: "take (length (rt_text s)) T = rt_text s"
    and rest: "covers_from (rt_end s) ss (drop (length (rt_text s)) T)"
    unfolding covers_from.simps by blast+
  show ?case
  proof (cases "rt_text s = []")
    case True
    from Cons.prems(2) have "mset (remove1 s xs) = mset ss" by simp
    moreover from Cons.prems(3) have "sorted (map rt_start (remove1 s xs))"
      by (rule sorted_map_remove1)
    moreover from rest True en have "covers_from off ss T" by simp
    ultimately have "concat (map rt_text (remove1 s xs)) = T"
      using Cons.IH by blast
    with concat_remove1_empty [OF sin True] show ?thesis by simp
  next
    case False
    with en have later: "off < rt_end s" by simp
    from sin obtain x xs' where xs: "xs = x # xs'" by (cases xs) auto
    have "x = s"
    proof (rule ccontr)
      assume ne: "x \<noteq> s"
      have "x \<in> set xs" by (simp add: xs)
      with Cons.prems(2) have "x \<in> set (s # ss)" by (metis set_mset_mset)
      with ne have "x \<in> set ss" by simp
      from covers_from_start_ge [OF rest this] later have "off < rt_start x" by simp
      moreover from sin ne xs have "s \<in> set xs'" by simp
      with Cons.prems(3) xs have "rt_start x \<le> rt_start s" by simp
      ultimately show False using st by simp
    qed
    with Cons.prems(2,3) xs have "mset xs' = mset ss" and "sorted (map rt_start xs')"
      by simp_all
    with Cons.IH [OF rest] have "concat (map rt_text xs') = drop (length (rt_text s)) T"
      by blast
    with xs \<open>x = s\<close> have "concat (map rt_text xs) = rt_text s @ drop (length (rt_text s)) T"
      by simp
    also have "\<dots> = take (length (rt_text s)) T @ drop (length (rt_text s)) T"
      using tx by simp
    finally show ?thesis by simp
  qed
qed

lemma covers_from_first_start:
  assumes "covers_from 0 ss T" and "mset xs = mset ss" and "sorted (map rt_start xs)"
    and "xs \<noteq> []"
  shows "rt_start (hd xs) = 0"
proof -
  from assms(4) obtain x xs' where xs: "xs = x # xs'" by (cases xs) auto
  from assms(2,4) have "ss \<noteq> []" by auto
  then obtain s ss' where ss: "ss = s # ss'" by (cases ss) auto
  with assms(1) have s0: "rt_start s = 0" by simp
  have "x \<in> set ss" using assms(2) xs by (metis list.set_intros(1) set_mset_mset)
  from covers_from_start_ge [OF assms(1) this] have "0 \<le> rt_start x" .
  moreover have "s \<in> set xs" using assms(2) ss by (metis list.set_intros(1) set_mset_mset)
  with assms(3) xs have "rt_start x \<le> rt_start s" by auto
  ultimately show ?thesis using s0 xs by simp
qed

text \<open>
  C6: let \<open>records\<close> be a non-empty collection, in any order, of the records \<open>slices\<close> that
  cover \<open>[0, N)\<close> of \<open>original\<close> contiguously and exactly, \<open>N\<close> the length of \<open>original\<close>.
  Then \<open>joinTextChunksAndTrim(0, N, records)\<close> is \<open>original\<close> with \<open>start = 0\<close> and
  \<open>end = N\<close>, and \<open>joinTextChunksAndTrim(null, null, records)\<close> has the texts joined in
  ascending order of \<open>start\<close>, which is \<open>original\<close> again, and neither \<open>start\<close> nor \<open>end\<close>.
\<close>

theorem joinTextChunksAndTrim_covering:
  assumes "records \<noteq> []" and "mset records = mset slices" and "covers_from 0 slices original"
  shows "joinTextChunksAndTrim (Some 0) (Some (int (length original))) records =
           \<lparr>res_text = original, res_start = Some 0, res_end = Some (int (length original))\<rparr> \<and>
         joinTextChunksAndTrim None None records =
           \<lparr>res_text = concat (map rt_text (sort_key rt_start records)),
            res_start = None, res_end = None\<rparr> \<and>
         concat (map rt_text (sort_key rt_start records)) = original"
proof -
  define sorted_records where "sorted_records = sort_key rt_start records"
  have ms: "mset sorted_records = mset slices" using assms(2) by (simp add: sorted_records_def)
  have so: "sorted (map rt_start sorted_records)" by (simp add: sorted_records_def)
  from assms(1) have ne: "sorted_records \<noteq> []"
    by (metis ms assms(2) mset_zero_iff)
  from covers_from_sorted_concat [OF assms(3) ms so]
  have joined: "concat (map rt_text sorted_records) = original" .
  from covers_from_first_start [OF assms(3) ms so ne]
  have first: "rt_start (hd sorted_records) = 0" .
  from assms(1) joined first show ?thesis
    by (simp add: joinTextChunksAndTrim_def Let_def sorted_records_def [symmetric] substr_whole)
qed

text \<open>
  C8: for every \<open>start\<close> and \<open>end\<close>, \<open>null\<close> or not, \<open>joinTextChunksAndTrim\<close> of no records
  is \<open>{text: "", start: 0, end: 0}\<close>.
\<close>

theorem joinTextChunksAndTrim_empty:
  "joinTextChunksAndTrim start end [] = \<lparr>res_text = [], res_start = Some 0, res_end = Some 0\<rparr>"
  by (simp add: joinTextChunksAndTrim_def)

text \<open>
  C6, witness: \<open>"hello world"\<close> stored as \<open>"hel"\<close>, \<open>"lo wo"\<close>, \<open>"rld"\<close> and retrieved out of
  order.
\<close>

theorem joinTextChunksAndTrim_covering_witness:
  "[\<lparr>rt_text = ''lo wo'', rt_start = 3, rt_end = 8\<rparr>, \<lparr>rt_text = ''rld'', rt_start = 8, rt_end = 11\<rparr>,
    \<lparr>rt_text = ''hel'', rt_start = 0, rt_end = 3\<rparr>] \<noteq> [] \<and>
   mset [\<lparr>rt_text = ''lo wo'', rt_start = 3, rt_end = 8\<rparr>, \<lparr>rt_text = ''rld'', rt_start = 8, rt_end = 11\<rparr>,
    \<lparr>rt_text = ''hel'', rt_start = 0, rt_end = 3\<rparr>] =
   mset [\<lparr>rt_text = ''hel'', rt_start = 0, rt_end = 3\<rparr>, \<lparr>rt_text = ''lo wo'', rt_start = 3, rt_end = 8\<rparr>,
    \<lparr>rt_text = ''rld'', rt_start = 8, rt_end = 11\<rparr>] \<and>
   covers_from 0 [\<lparr>rt_text = ''hel'', rt_start = 0, rt_end = 3\<rparr>, \<lparr>rt_text = ''lo wo'', rt_start = 3, rt_end = 8\<rparr>,
    \<lparr>rt_text = ''rld'', rt_start = 8, rt_end = 11\<rparr>] ''hello world'' \<and>
   joinTextChunksAndTrim (Some 0) (Some (int (length ''hello world'')))
     [\<lparr>rt_text = ''lo wo'', rt_start = 3, rt_end = 8\<rparr>, \<lparr>rt_text = ''rld'', rt_start = 8, rt_end = 11\<rparr>,
      \<lparr>rt_text = ''hel'', rt_start = 0, rt_end = 3\<rparr>] =
     \<lparr>res_text = ''hello world'', res_start = Some 0, res_end = Some (int (length ''hello world''))\<rparr> \<and>
   joinTextChunksAndTrim None None
     [\<lparr>rt_text = ''lo wo'', rt_start = 3, rt_end = 8\<rparr>, \<lparr>rt_text = ''rld'', rt_start = 8, rt_end = 11\<rparr>,
      \<lparr>rt_text = ''hel'', rt_start = 0, rt_end = 3\<rparr>] =
     \<lparr>res_text = ''hello world'', res_start = None, res_end = None\<rparr>"
proof -
  let ?records = "[\<lparr>rt_text = ''lo wo'', rt_start = 3, rt_end = 8\<rparr>,
    \<lparr>rt_text = ''rld'', rt_start = 8, rt_end = 11\<rparr>, \<lparr>rt_text = ''hel'', rt_start = 0, rt_end = 3\<rparr>]"
  let ?slices = "[\<lparr>rt_text = ''hel'', rt_start = 0, rt_end = 3\<rparr>,
    \<lparr>rt_text = ''lo wo'', rt_start = 3, rt_end = 8\<rparr>, \<lparr>rt_text = ''rld'', rt_start = 8, rt_end = 11\<rparr>]"
  have h1: "?records \<noteq> []" by simp
  have h2: "mset ?records = mset ?slices" by (simp add: add.commute add.left_commute)
  have h3: "covers_from 0 ?slices ''hello world''" by simp
  from joinTextChunksAndTrim_covering [OF h1 h2 h3] h1 h2 h3 show ?thesis by simp
qed

subsection \<open>buildRangeQuery\<close>

text \<open>
  C7: for every \<open>textId\<close>, \<open>start\<close> and \<open>end\<close>, the query of \<open>buildRangeQuery\<close> selects a
  record exactly when its \<open>textId\<close> is the given one, its \<open>start\<close> is below \<open>end\<close> and its
  \<open>end\<close> is at least \<open>start\<close>; the size of the result is capped at 1000000; a record with
  \<open>start = 5\<close> and \<open>end = 15\<close> is selected for the window \<open>(10, 12)\<close> and one with
  \<open>start = 0\<close> and \<open>end = 5\<close> is not.
\<close>

theorem buildRangeQuery_selects:
  "selects (buildRangeQuery index textId start end) r =
     (src_textId r = textId \<and> rt_start r < end \<and> rt_end r \<ge> start) \<and>
   q_size (buildRangeQuery index textId start end) = 1000000 \<and>
   q_index (buildRangeQuery index textId start end) = index \<and>
   selects (buildRangeQuery index textId 10 12)
     \<lparr>rt_text = t, rt_start = 5, rt_end = 15, src_textId = textId, src_id = i, src_rest = p\<rparr> \<and>
   \<not> selects (buildRangeQuery index textId 10 12)
     \<lparr>rt_text = t, rt_start = 0, rt_end = 5, src_textId = textId, src_id = i, src_rest = p\<rparr>"
  by (simp add: selects_def buildRangeQuery_def numeric_field_def text_field_def)

subsection \<open>indexArray and indexArrays\<close>

lemma client_index_log:
  "client_index env index type item opts w = (r, w') \<Longrightarrow>
   calls w' = calls w @ [\<lparr>request = IndexRequest index type item opts, failure = error_of r\<rparr>]"
  by (auto simp: client_index_def logged_def split: prod.splits)

lemma stops_Nil: "stops_at_first_failure [] [] None"
  by (simp add: stops_at_first_failure_def)

lemma stops_fail:
  "request c = rq \<Longrightarrow> failure c = Some e \<Longrightarrow> stops_at_first_failure (rq # reqs) [c] (Some e)"
  by (simp add: stops_at_first_failure_def)

lemma stops_Cons:
  assumes "request c = rq" and "failure c = None" and "stops_at_first_failure reqs new err"
  shows "stops_at_first_failure (rq # reqs) (c # new) err"
  using assms by (cases new) (auto simp: stops_at_first_failure_def)

lemma stops_append_fail:
  assumes "stops_at_first_failure reqs new (Some e)"
  shows "stops_at_first_failure (reqs @ reqs') new (Some e)"
  using assms by (auto simp: stops_at_first_failure_def)

lemma stops_append_ok:
  assumes "stops_at_first_failure reqs new None" and "stops_at_first_failure reqs' new' err"
  shows "stops_at_first_failure (reqs @ reqs') (new @ new') err"
proof -
  from assms(1) have len: "length new = length reqs" and req: "map request new = reqs"
    and ok: "\<forall>c\<in>set new. failure c = None"
    by (auto simp: stops_at_first_failure_def)
  from assms(2) have len': "length new' \<le> length reqs'"
    and req': "map request new' = take (length new') reqs'"
    and ok': "\<forall>c\<in>set (butlast new'). failure c = None"
    and none': "err = None \<longrightarrow> length new' = length reqs' \<and> (\<forall>c\<in>set new'. failure c = None)"
    and some': "\<forall>e. err = Some e \<longrightarrow> new' \<noteq> [] \<and> failure (last new') = Some e"
    by (auto simp: stops_at_first_failure_def)
  have "\<forall>c\<in>set (butlast (new @ new')). failure c = None"
  proof (cases "new' = []")
    case True
    with ok show ?thesis by (auto dest: in_set_butlastD)
  next
    case False
    with ok ok' show ?thesis by (auto simp: butlast_append)
  qed
  moreover have "map request (new @ new') = take (length (new @ new')) (reqs @ reqs')"
    using len req req' by simp
  ultimately show ?thesis
    using len len' ok none' some' by (auto simp: stops_at_first_failure_def)
qed

lemma indexArray_trace:
  "indexArray env index type items w = (err, w') \<Longrightarrow>
   \<exists>new. calls w' = calls w @ new \<and>
     stops_at_first_failure (map (\<lambda>item. IndexRequest index type item None) items) new err \<and>
     (\<forall>c\<in>set new. request_type (request c) = type)"
proof (induction items arbitrary: w)
  case Nil
  then show ?case by (simp add: stops_Nil)
next
  case (Cons item items)
  obtain r w1 where step: "client_index env index type item None w = (r, w1)"
    by (cases "client_index env index type item None w")
  let ?c = "\<lparr>request = IndexRequest index type item None, failure = error_of r\<rparr>"
  from client_index_log [OF step] have log: "calls w1 = calls w @ [?c]" .
  show ?case
  proof (cases r)
    case (Inl e)
    with Cons.prems step have "err = Some e" and "w' = w1" by simp_all
    moreover have "stops_at_first_failure
        (map (\<lambda>item. IndexRequest index type item None) (item # items)) [?c] (Some e)"
      using Inl by (simp add: stops_fail error_of_def)
    ultimately show ?thesis using log by auto
  next
    case (Inr res)
    with Cons.prems step have "indexArray env index type items w1 = (err, w')" by simp
    from Cons.IH [OF this] obtain new where new: "calls w' = calls w1 @ new"
      and run: "stops_at_first_failure (map (\<lambda>item. IndexRequest index type item None) items) new err"
      and ty: "\<forall>c\<in>set new. request_type (request c) = type"
      by blast
    have "stops_at_first_failure
        (map (\<lambda>item. IndexRequest index type item None) (item # items)) (?c # new) err"
      using Inr run by (simp add: stops_Cons error_of_def)
    with new log ty show ?thesis by auto
  qed
qed

lemma indexArrays_trace:
  "indexArrays env index lists' w = (err, w') \<Longrightarrow>
   \<exists>new raw. calls w' = calls w @ new \<and>
     stops_at_first_failure (writes_of index lists') new raw \<and>
     err = map_option
       (\<lambda>e. e\<lparr>message := ''Error while indexing '' @ request_type (request (last new))\<rparr>) raw"
proof (induction lists' arbitrary: w)
  case Nil
  then show ?case by (simp add: writes_of_def stops_Nil)
next
  case (Cons wrap lists')
  obtain raw1 w1 where first: "indexArray env index (c_type wrap) (c_list wrap) w = (raw1, w1)"
    by (cases "indexArray env index (c_type wrap) (c_list wrap) w")
  from indexArray_trace [OF first] obtain new1 where new1: "calls w1 = calls w @ new1"
    and run1: "stops_at_first_failure
        (map (\<lambda>item. IndexRequest index (c_type wrap) item None) (c_list wrap)) new1 raw1"
    and ty1: "\<forall>c\<in>set new1. request_type (request c) = c_type wrap"
    by blast
  have w_eq: "writes_of index (wrap # lists') =
      map (\<lambda>item. IndexRequest index (c_type wrap) item None) (c_list wrap) @ writes_of index lists'"
    by (simp add: writes_of_def)
  show ?case
  proof (cases raw1)
    case (Some e)
    with Cons.prems first
    have err: "err = Some (e\<lparr>message := ''Error while indexing '' @ c_type wrap\<rparr>)" and "w' = w1"
      by simp_all
    from run1 Some have "new1 \<noteq> []" by (simp add: stops_at_first_failure_def)
    with ty1 have "request_type (request (last new1)) = c_type wrap" by simp
    moreover from run1 Some have "stops_at_first_failure (writes_of index (wrap # lists')) new1 (Some e)"
      unfolding w_eq by (simp add: stops_append_fail)
    ultimately show ?thesis using err new1 \<open>w' = w1\<close> by auto
  next
    case None
    with Cons.prems first have "indexArrays env index lists' w1 = (err, w')" by simp
    from Cons.IH [OF this] obtain new2 raw2 where new2: "calls w' = calls w1 @ new2"
      and run2: "stops_at_first_failure (writes_of index lists') new2 raw2"
      and err: "err = map_option
         (\<lambda>e. e\<lparr>message := ''Error while indexing '' @ request_type (request (last new2))\<rparr>) raw2"
      by blast
    from run1 None run2
    have run: "stops_at_first_failure (writes_of index (wrap # lists')) (new1 @ new2) raw2"
      unfolding w_eq by (simp add: stops_append_ok)
    have "err = map_option
         (\<lambda>e. e\<lparr>message := ''Error while indexing '' @ request_type (request (last (new1 @ new2)))\<rparr>) raw2"
    proof (cases raw2)
      case None
      with err show ?thesis by simp
    next
      case (Some e)
      with run2 have "new2 \<noteq> []" by (simp add: stops_at_first_failure_def)
      with err show ?thesis by simp
    qed
    with run new1 new2 show ?thesis by auto
  qed
qed

text \<open>
  C5: \<open>indexArrays\<close> makes the writes one at a time in the supplied order (the calls it adds
  to the log are the first requests of \<open>writes_of\<close>, in order), and stops at the first one
  that fails (every call but the last succeeded). It reports \<open>null\<close> exactly when every
  call it made succeeded, and then every record of every collection was written. When it
  reports an error, the last call made is the one that failed, no later record or
  collection was attempted, and the error is the store's with its message set to
  \<open>"Error while indexing "\<close> and the type of the failing record's collection.
\<close>

theorem indexArrays_fail_fast:
  assumes "indexArrays env index lists' w = (err, w')"
  shows "\<exists>new. calls w' = calls w @ new \<and>
      length new \<le> length (writes_of index lists') \<and>
      map request new = take (length new) (writes_of index lists') \<and>
      (\<forall>c\<in>set (butlast new). failure c = None) \<and>
      (err = None \<longleftrightarrow> (\<forall>c\<in>set new. failure c = None)) \<and>
      (err = None \<longrightarrow> length new = length (writes_of index lists')) \<and>
      (\<forall>e. err = Some e \<longrightarrow> new \<noteq> [] \<and>
         (\<exists>e0. failure (last new) = Some e0 \<and>
            e = e0\<lparr>message := ''Error while indexing '' @ request_type (request (last new))\<rparr>))"
proof -
  from indexArrays_trace [OF assms] obtain new raw where log: "calls w' = calls w @ new"
    and run: "stops_at_first_failure (writes_of index lists') new raw"
    and err: "err = map_option
       (\<lambda>e. e\<lparr>message := ''Error while indexing '' @ request_type (request (last new))\<rparr>) raw"
    by blast
  from err have none: "err = None \<longleftrightarrow> raw = None" by simp
  have "(\<forall>c\<in>set new. failure c = None) \<longrightarrow> raw = None"
  proof
    assume ok: "\<forall>c\<in>set new. failure c = None"
    show "raw = None"
    proof (cases raw)
      case None
      then show ?thesis .
    next
      case (Some e)
      with run have "new \<noteq> []" and "failure (last new) = Some e"
        by (simp_all add: stops_at_first_failure_def)
      with ok show ?thesis by (metis last_in_set option.distinct(1))
    qed
  qed
  with run none err log show ?thesis
    unfolding stops_at_first_failure_def by (intro exI [of _ new]) auto
qed

text \<open>
  C5, witness: the collections \<open>[{type:"text", list:[A, B]}, {type:"semantics", list:[C]}]\<close>
  on a store where the write of \<open>B\<close> fails: \<open>A\<close> and \<open>B\<close> are attempted, \<open>C\<close> is not, and the
  message names the type \<open>"text"\<close>.
\<close>

theorem indexArrays_fail_fast_witness:
  "indexArrays (failing_store 1 []) ''textus'' example_collections fresh_world =
     (Some example_error, example_world_after) \<and>
   (\<exists>new. calls example_world_after = calls fresh_world @ new \<and>
      length new \<le> length (writes_of ''textus'' example_collections) \<and>
      map request new = take (length new) (writes_of ''textus'' example_collections) \<and>
      (\<forall>c\<in>set (butlast new). failure c = None) \<and>
      (Some example_error = None \<longleftrightarrow> (\<forall>c\<in>set new. failure c = None)) \<and>
      (Some example_error = None \<longrightarrow> length new = length (writes_of ''textus'' example_collections)) \<and>
      (\<forall>e. Some example_error = Some e \<longrightarrow> new \<noteq> [] \<and>
         (\<exists>e0. failure (last new) = Some e0 \<and>
            e = e0\<lparr>message := ''Error while indexing '' @ request_type (request (last new))\<rparr>)))"
proof -
  have run: "indexArrays (failing_store 1 []) ''textus'' example_collections fresh_world =
     (Some example_error, example_world_after)"
    by code_simp
  show ?thesis by (rule conjI [OF run indexArrays_fail_fast [OF run]])
qed

subsection \<open>importData and updateTextMetadata\<close>

lemma client_refresh_log:
  "client_refresh env index w = (err, w') \<Longrightarrow>
   calls w' = calls w @ [\<lparr>request = RefreshRequest index, failure = err\<rparr>]"
  by (auto simp: client_refresh_def logged_def split: prod.splits)

lemma client_get_log:
  "client_get env index ident w = (r, w') \<Longrightarrow>
   calls w' = calls w @ [\<lparr>request = GetRequest index ident, failure = error_of r\<rparr>]"
  by (auto simp: client_get_def logged_def split: prod.splits)

text \<open>
  C1: a write that fails after the metadata write should reach the callback as an error.
  On a store where the metadata write succeeds and the write of the first chunk fails,
  \<open>importData\<close> refreshes the index and calls back with \<open>null\<close> for the error and the new
  \<open>textId\<close>: the continuation of \<open>indexArrays\<close> does not read its \<open>err\<close>.
\<close>

theorem importData_drops_write_error:
  "callback_args (importData (failing_store 1 [])
       (parts_only [\<lparr>part_text = ''the hello '', sequence = 0\<rparr>]) fresh_world) =
     Some (None, Some ''id-1'') \<and>
   calls (world_after (importData (failing_store 1 [])
       (parts_only [\<lparr>part_text = ''the hello '', sequence = 0\<rparr>]) fresh_world)) =
     [\<lparr>request = IndexRequest ''textus'' ''structure''
         (Structure \<lparr>date = Date_now_function, meta_rest = ()\<rparr>) None,
       failure = None\<rparr>,
      \<lparr>request = IndexRequest ''textus'' ''text''
         (TextDoc \<lparr>rt_text = ''the hello'', rt_start = 0, rt_end = 9, sc_textId = ''id-1''\<rparr>) None,
       failure = Some \<lparr>message = ''write failed'', err_detail = ''503''\<rparr>\<rparr>,
      \<lparr>request = RefreshRequest ''textus'', failure = None\<rparr>]"
  by code_simp


lemma indexArrays_log_grows:
  "indexArrays env index lists' w = (err, w') \<Longrightarrow> \<exists>new. calls w' = calls w @ new"
  using indexArrays_trace by blast

text \<open>
  After a metadata write that succeeded, the error that \<open>importData\<close> passes to the
  callback is the error of the refresh, whatever \<open>indexArrays\<close> reported.
\<close>

lemma importData_reports_refresh_only:
  assumes "callback_args (importData env data w) = Some (err, Some textId)"
  shows "last (calls (world_after (importData env data w))) =
           \<lparr>request = RefreshRequest (textusIndex env), failure = err\<rparr>"
proof -
  let ?m = "(data_metadata data)\<lparr>date := Date_now_function\<rparr>"
  obtain r w1 where step: "client_index env (textusIndex env) ''structure'' (Structure ?m) None w = (r, w1)"
    by (cases "client_index env (textusIndex env) ''structure'' (Structure ?m) None w")
  show ?thesis
  proof (cases r)
    case (Inl e)
    with step assms show ?thesis by (simp add: importData_def Let_def)
  next
    case (Inr tid)
    show ?thesis
    proof (cases "createTextChunks textChunkSize (data\<lparr>data_metadata := ?m\<rparr>)")
      case None
      with Inr step assms show ?thesis by (simp add: importData_def Let_def)
    next
      case (Some chunks)
      with Inr step assms show ?thesis
        by (auto simp: importData_def Let_def simp del: indexArrays.simps
              split: prod.splits dest!: client_refresh_log)
    qed
  qed
qed

text \<open>
  C9, as amended: \<open>importData\<close> and \<open>updateTextMetadata\<close> set the \<open>date\<close> of the caller's
  metadata object to the function \<open>Date.now\<close> itself, which is no number; the object is
  changed in place, and the first call that either function makes hands the metadata
  with that \<open>date\<close> to the index operation of the store. What the store keeps of the
  field is the store's affair.
\<close>

theorem date_is_Date_now_function:
  "data_metadata (data_after (importData env data w)) =
     (data_metadata data)\<lparr>date := Date_now_function\<rparr> \<and>
   (\<exists>rest. map request (calls (world_after (importData env data w))) =
      map request (calls w) @
      IndexRequest (textusIndex env) ''structure''
        (Structure ((data_metadata data)\<lparr>date := Date_now_function\<rparr>)) None # rest) \<and>
   snd (snd (updateTextMetadata env textId newMetadata w)) =
     newMetadata\<lparr>date := Date_now_function\<rparr> \<and>
   (\<exists>rest. map request (calls (fst (snd (updateTextMetadata env textId newMetadata w)))) =
      map request (calls w) @
      IndexRequest (textusIndex env) ''structure''
        (Structure (newMetadata\<lparr>date := Date_now_function\<rparr>))
        (Some \<lparr>opt_id = textId, opt_refresh = True, opt_create = False\<rparr>) # rest) \<and>
   date (newMetadata\<lparr>date := Date_now_function\<rparr>) \<noteq> Date_number n"
proof -
  let ?m = "(data_metadata data)\<lparr>date := Date_now_function\<rparr>"
  let ?rq = "IndexRequest (textusIndex env) ''structure'' (Structure ?m) None"
  obtain r w1 where step: "client_index env (textusIndex env) ''structure'' (Structure ?m) None w = (r, w1)"
    by (cases "client_index env (textusIndex env) ''structure'' (Structure ?m) None w")
  from client_index_log [OF step]
  have log1: "map request (calls w1) = map request (calls w) @ [?rq]" by simp
  have i1: "data_metadata (data_after (importData env data w)) = ?m"
    using step
    by (cases r; cases "createTextChunks textChunkSize (data\<lparr>data_metadata := ?m\<rparr>)")
       (auto simp: importData_def Let_def simp del: indexArrays.simps split: prod.splits)
  have i2: "\<exists>rest. map request (calls (world_after (importData env data w))) =
      map request (calls w) @ ?rq # rest"
  proof (cases r)
    case (Inl e)
    with step log1 show ?thesis by (simp add: importData_def Let_def)
  next
    case (Inr tid)
    show ?thesis
    proof (cases "createTextChunks textChunkSize (data\<lparr>data_metadata := ?m\<rparr>)")
      case None
      with Inr step log1 show ?thesis by (simp add: importData_def Let_def)
    next
      case (Some chunks)
      with Inr step log1 show ?thesis
        by (auto simp: importData_def Let_def simp del: indexArrays.simps
              split: prod.splits dest!: client_refresh_log indexArrays_log_grows)
    qed
  qed
  let ?n = "newMetadata\<lparr>date := Date_now_function\<rparr>"
  let ?o = "Some \<lparr>opt_id = textId, opt_refresh = True, opt_create = False\<rparr>"
  let ?rq2 = "IndexRequest (textusIndex env) ''structure'' (Structure ?n) ?o"
  obtain r2 w2 where step2: "client_index env (textusIndex env) ''structure'' (Structure ?n) ?o w = (r2, w2)"
    by (cases "client_index env (textusIndex env) ''structure'' (Structure ?n) ?o w")
  from client_index_log [OF step2]
  have log2: "map request (calls w2) = map request (calls w) @ [?rq2]" by simp
  have u1: "snd (snd (updateTextMetadata env textId newMetadata w)) = ?n"
    using step2
    by (cases r2)
       (auto simp: updateTextMetadata_def regenerateBibliographicReferences_def Let_def
          split: prod.splits)
  have u2: "\<exists>rest. map request (calls (fst (snd (updateTextMetadata env textId newMetadata w)))) =
      map request (calls w) @ ?rq2 # rest"
    using step2 log2
    by (cases r2)
       (auto simp: updateTextMetadata_def regenerateBibliographicReferences_def Let_def
          getTextMetadata_def
          split: prod.splits sum.splits dest!: client_get_log)
  from i1 i2 u1 u2 show ?thesis by simp
qed
text \<open>
  C9, counterexample to the claim as stated: on a store that keeps JSON text the
  structure record that \<open>importData\<close> or \<open>updateTextMetadata\<close> leaves in the store has no
  \<open>date\<close> at all, so its \<open>date\<close> is not a function reference.
\<close>

theorem stored_date_is_absent:
  "backend (world_after (importData serialising_store
       (parts_only [\<lparr>part_text = ''the hello '', sequence = 0\<rparr>]) empty_store)) =
     [(''structure'', Structure \<lparr>date = Date_absent, meta_rest = ()\<rparr>),
      (''text'', TextDoc \<lparr>rt_text = ''the hello'', rt_start = 0, rt_end = 9, sc_textId = ''id-1''\<rparr>),
      (''text'', TextDoc \<lparr>rt_text = '' '', rt_start = 9, rt_end = 10, sc_textId = ''id-1''\<rparr>)] \<and>
   backend (fst (snd (updateTextMetadata serialising_store ''id-1''
       \<lparr>date = Date_number 1351944000000, meta_rest = ()\<rparr> empty_store))) =
     [(''structure'', Structure \<lparr>date = Date_absent, meta_rest = ()\<rparr>)] \<and>
   date \<lparr>date = Date_absent, meta_rest = ()\<rparr> \<noteq> Date_now_function"
  by code_simp

subsection \<open>fetchText\<close>

lemma sortHit_foldl:
  "foldl sortHit ([], [], [], None) hits =
     (map hit_source (filter (\<lambda>h. hit_type h = ''text'') hits),
      map with_id (filter (\<lambda>h. hit_type h = ''typography'') hits),
      map with_id (filter (\<lambda>h. hit_type h = ''semantics'') hits),
      (if filter unknown_type hits = [] then None
       else Some (unknown_message (last (filter unknown_type hits)))))"
proof (induction hits rule: rev_induct)
  case Nil
  then show ?case by simp
next
  case (snoc h hits)
  then show ?case
    by (simp add: sortHit_def unknown_type_def unknown_message_def with_id_def)
qed

text \<open>
  C10: when the search succeeds and some hit has a type other than \<open>"text"\<close>,
  \<open>"typography"\<close> and \<open>"semantics"\<close>, \<open>fetchText\<close> calls back with both an error, the
  unknown-result-type message for the last such hit, and the data object assembled from
  the hits of the three known types.
\<close>

theorem fetchText_error_and_data:
  assumes "search_op env (backend w) (buildRangeQuery (textusIndex env) textId start end) =
             (Inr hits, s')"
    and "h \<in> set hits" and "unknown_type h"
  shows "fst (fetchText env textId start end w) =
     (Some (ErrorMessage (unknown_message (last (filter unknown_type hits)))),
      Some \<lparr>f_textId = textId,
            f_text = res_text (joinTextChunksAndTrim (Some start) (Some end)
                       (map hit_source (filter (\<lambda>h. hit_type h = ''text'') hits))),
            f_typography = map with_id (filter (\<lambda>h. hit_type h = ''typography'') hits),
            f_semantics = map with_id (filter (\<lambda>h. hit_type h = ''semantics'') hits),
            f_start = start,
            f_end = end\<rparr>)"
proof -
  from assms(2,3) have "filter unknown_type hits \<noteq> []"
    by (auto simp: filter_empty_conv)
  with assms(1) show ?thesis
    by (simp add: fetchText_def client_search_def sortHit_foldl)
qed

text \<open>
  C10, witness: a search result with two text chunks, a typography annotation and a hit
  of type \<open>"bibjson"\<close>.
\<close>

theorem fetchText_error_and_data_witness:
  "search_op (failing_store 0 example_hits) (backend fresh_world)
     (buildRangeQuery (textusIndex (failing_store 0 example_hits)) ''id-1'' 1 7) =
     (Inr example_hits, 0) \<and>
   \<lparr>hit_type = ''bibjson'', hit_id = ''b1'',
     hit_source = \<lparr>rt_text = [], rt_start = 0, rt_end = 20,
                   src_textId = ''id-1'', src_id = None, src_rest = ()\<rparr>\<rparr> \<in> set example_hits \<and>
   unknown_type \<lparr>hit_type = ''bibjson'', hit_id = ''b1'',
     hit_source = \<lparr>rt_text = [], rt_start = 0, rt_end = 20,
                   src_textId = ''id-1'', src_id = None, src_rest = ()\<rparr>\<rparr> \<and>
   fst (fetchText (failing_store 0 example_hits) ''id-1'' 1 7 fresh_world) =
     (Some (ErrorMessage (''Unknown result type! '' @ [CHR 0x27] @ ''bibjson'' @ [CHR 0x27] @ ''.'')),
      Some \<lparr>f_textId = ''id-1'',
            f_text = ''he hel'',
            f_typography = [\<lparr>rt_text = [], rt_start = 0, rt_end = 3,
                   src_textId = ''id-1'', src_id = Some ''y1'', src_rest = ()\<rparr>],
            f_semantics = [],
            f_start = 1,
            f_end = 7\<rparr>)"
proof -
  let ?h = "\<lparr>hit_type = ''bibjson'', hit_id = ''b1'',
     hit_source = \<lparr>rt_text = [], rt_start = 0, rt_end = 20,
                   src_textId = ''id-1'', src_id = None, src_rest = ()\<rparr>\<rparr>"
  have h1: "search_op (failing_store 0 example_hits) (backend fresh_world)
     (buildRangeQuery (textusIndex (failing_store 0 example_hits)) ''id-1'' 1 7) =
     (Inr example_hits, 0)"
    by (simp add: failing_store_def fresh_world_def)
  have h2: "?h \<in> set example_hits" by (simp add: example_hits_def)
  have h3: "unknown_type ?h" by (simp add: unknown_type_def)
  have v: "(unknown_message (last (filter unknown_type example_hits)) =
             ''Unknown result type! '' @ [CHR 0x27] @ ''bibjson'' @ [CHR 0x27] @ ''.'') \<and>
           res_text (joinTextChunksAndTrim (Some 1) (Some 7)
                       (map hit_source (filter (\<lambda>h. hit_type h = ''text'') example_hits))) = ''he hel'' \<and>
           map with_id (filter (\<lambda>h. hit_type h = ''typography'') example_hits) =
             [\<lparr>rt_text = [], rt_start = 0, rt_end = 3,
                   src_textId = ''id-1'', src_id = Some ''y1'', src_rest = ()\<rparr>] \<and>
           map with_id (filter (\<lambda>h. hit_type h = ''semantics'') example_hits) = []"
    by code_simp
  from fetchText_error_and_data [OF h1 h2 h3] h1 h2 h3 v show ?thesis by simp
qed

end
